theory Spec2Isabelle
  imports Complex_Main
begin

section \<open>Values of the handler\<close>

text \<open>
  The backend (\<^verbatim>\<open>src/index.js\<close>) is an Express handler that works on parsed JSON:
  the request body, the reply of the language model and the viseme documents read from
  disk. A JavaScript string is modelled as the list of bytes of its UTF-8 form (a lone
  surrogate as its three-byte form), so that ASCII text is itself; a number as the
  rational its literal denotes; \<^verbatim>\<open>undefined\<close> as \<open>None\<close> of an option.
\<close>

datatype json =
    JNull
  | JBool bool
  | JNum rat
  | JStr string
  | JArr "json list"
  | JObj "(string \<times> json) list"

datatype js_error =
    TypeError
  | SyntaxError
  | Failure string

text \<open>
  \<open>Failure m\<close> is an \<^verbatim>\<open>Error\<close> with message \<open>m\<close> raised by a collaborator
  (the model client, the speech client, the file system, a child process);
  \<open>TypeError\<close> and \<open>SyntaxError\<close> are raised by the engine itself.
\<close>

text \<open>
  JavaScript's \<^verbatim>\<open>ToBoolean\<close>. A literal denotes the number zero when it rounds to
  zero as a double, that is when its magnitude is at most \<open>2 ^ -1075\<close>.
\<close>

definition double_zero :: "rat \<Rightarrow> bool" where
  "double_zero q = (\<bar>q\<bar> * 2 ^ 1075 \<le> 1)"

fun truthy :: "json \<Rightarrow> bool" where
  "truthy JNull = False"
| "truthy (JBool b) = b"
| "truthy (JNum q) = (if double_zero q then False else True)"
| "truthy (JStr s) = (s \<noteq> [])"
| "truthy (JArr xs) = True"
| "truthy (JObj kvs) = True"

text \<open>
  \<open>get_prop v k\<close> is the read \<^verbatim>\<open>v.k\<close> for the property names the handler reads
  from parsed JSON (\<^verbatim>\<open>message\<close>, \<^verbatim>\<open>messages\<close>, \<^verbatim>\<open>text\<close>): none is an
  array index, \<^verbatim>\<open>length\<close> or a name found on a prototype, so only an object has
  them, and reading from \<^verbatim>\<open>null\<close> raises.
\<close>

fun get_prop :: "json \<Rightarrow> string \<Rightarrow> js_error + json option" where
  "get_prop JNull k = Inl TypeError"
| "get_prop (JObj kvs) k = Inr (map_of kvs k)"
| "get_prop (JBool b) k = Inr None"
| "get_prop (JNum q) k = Inr None"
| "get_prop (JStr s) k = Inr None"
| "get_prop (JArr xs) k = Inr None"

text \<open>
  Storing a member of an object keeps the place of a name that is already there and
  appends a new one, as property creation does.
\<close>

fun set_member :: "(string \<times> json) list \<Rightarrow> string \<Rightarrow> json \<Rightarrow> (string \<times> json) list" where
  "set_member [] k v = [(k, v)]"
| "set_member ((k', v') # kvs) k v =
     (if k' = k then (k, v) # kvs else (k', v') # set_member kvs k v)"

text \<open>
  \<open>assign v k x\<close> is the statement \<^verbatim>\<open>v.k = x\<close> in module (strict) code: it raises on a
  primitive, and a named property put on an array is no part of its JSON form.
\<close>

fun assign :: "json \<Rightarrow> string \<Rightarrow> json \<Rightarrow> js_error + json" where
  "assign (JObj kvs) k x = Inr (JObj (set_member kvs k x))"
| "assign (JArr xs) k x = Inr (JArr xs)"
| "assign JNull k x = Inl TypeError"
| "assign (JBool b) k x = Inl TypeError"
| "assign (JNum q) k x = Inl TypeError"
| "assign (JStr s) k x = Inl TypeError"

section \<open>JSON.parse\<close>

text \<open>
  \<^verbatim>\<open>JSON.parse\<close> belongs to the engine, not to the repository; it is modelled by a
  tokenizer and a stack machine for the JSON grammar (ECMA-404), so that the handler can
  be run on concrete replies. A number is kept as the exact value of its literal, not
  rounded to a double, and the members of an object in the order of the text.
\<close>

datatype token =
    LBrace | RBrace | LBracket | RBracket | Colon | Comma
  | TStr string | TNum rat | TTrue | TFalse | TNull

definition is_ws :: "char \<Rightarrow> bool" where
  "is_ws c = (c = CHR '' '' \<or> c = CHR 0x09 \<or> c = CHR 0x0A \<or> c = CHR 0x0D)"

definition is_digit :: "char \<Rightarrow> bool" where
  "is_digit c = (48 \<le> (of_char c :: nat) \<and> (of_char c :: nat) \<le> 57)"

definition digit_val :: "char \<Rightarrow> nat" where
  "digit_val c = of_char c - 48"

definition nat_of_digits :: "string \<Rightarrow> nat" where
  "nat_of_digits ds = foldl (\<lambda>a c. 10 * a + digit_val c) 0 ds"

fun strip_prefix :: "string \<Rightarrow> string \<Rightarrow> string option" where
  "strip_prefix [] s = Some s"
| "strip_prefix (p # ps) [] = None"
| "strip_prefix (p # ps) (c # cs) = (if p = c then strip_prefix ps cs else None)"

subsection \<open>Numbers\<close>

definition lex_sign :: "string \<Rightarrow> bool \<times> string" where
  "lex_sign cs = (case cs of
       [] \<Rightarrow> (False, [])
     | c # r \<Rightarrow> if c = CHR ''-'' then (True, r) else (False, c # r))"

definition lex_fraction :: "string \<Rightarrow> (rat \<times> string) option" where
  "lex_fraction cs = (case cs of
       [] \<Rightarrow> Some (0, [])
     | c # r \<Rightarrow>
         if c = CHR ''.'' then
           (let fs = takeWhile is_digit r in
            if fs = [] then None
            else Some (of_nat (nat_of_digits fs) / 10 ^ length fs, dropWhile is_digit r))
         else Some (0, c # r))"

definition lex_exponent :: "string \<Rightarrow> (rat \<times> string) option" where
  "lex_exponent cs = (case cs of
       [] \<Rightarrow> Some (1, [])
     | c # r \<Rightarrow>
         if c = CHR ''e'' \<or> c = CHR ''E'' then
           (let (down, r1) = (case r of
                   [] \<Rightarrow> (False, [])
                 | s # r' \<Rightarrow> if s = CHR ''-'' then (True, r')
                             else if s = CHR ''+'' then (False, r') else (False, s # r'));
                es = takeWhile is_digit r1
            in if es = [] then None
               else Some (if down then 1 / 10 ^ nat_of_digits es else 10 ^ nat_of_digits es,
                          dropWhile is_digit r1))
         else Some (1, c # r))"

definition lex_number :: "string \<Rightarrow> (rat \<times> string) option" where
  "lex_number cs =
     (let (neg, cs1) = lex_sign cs;
          ds = takeWhile is_digit cs1
      in if ds = [] \<or> (hd ds = CHR ''0'' \<and> tl ds \<noteq> []) then None
         else (case lex_fraction (dropWhile is_digit cs1) of
             None \<Rightarrow> None
           | Some (f, cs2) \<Rightarrow>
               (case lex_exponent cs2 of
                  None \<Rightarrow> None
                | Some (e, cs3) \<Rightarrow>
                    Some ((if neg then - 1 else 1) * (of_nat (nat_of_digits ds) + f) * e, cs3))))"

subsection \<open>Strings\<close>

definition hex_val :: "char \<Rightarrow> nat option" where
  "hex_val c =
     (let n = (of_char c :: nat) in
      if 48 \<le> n \<and> n \<le> 57 then Some (n - 48)
      else if 65 \<le> n \<and> n \<le> 70 then Some (n - 55)
      else if 97 \<le> n \<and> n \<le> 102 then Some (n - 87)
      else None)"

definition hex4 :: "string \<Rightarrow> nat option" where
  "hex4 cs = (case cs of
       a # b # c # d # r \<Rightarrow>
         (case (hex_val a, hex_val b, hex_val c, hex_val d) of
            (Some w, Some x, Some y, Some z) \<Rightarrow> Some (((w * 16 + x) * 16 + y) * 16 + z)
          | _ \<Rightarrow> None)
     | _ \<Rightarrow> None)"

definition utf8 :: "nat \<Rightarrow> string" where
  "utf8 cp =
     (if cp < 0x80 then [char_of cp]
      else if cp < 0x800 then [char_of (0xC0 + cp div 64), char_of (0x80 + cp mod 64)]
      else if cp < 0x10000 then
        [char_of (0xE0 + cp div 4096), char_of (0x80 + cp div 64 mod 64),
         char_of (0x80 + cp mod 64)]
      else
        [char_of (0xF0 + cp div 262144), char_of (0x80 + cp div 4096 mod 64),
         char_of (0x80 + cp div 64 mod 64), char_of (0x80 + cp mod 64)])"

text \<open>
  An escaped high surrogate followed by a low surrogate is one code point: its two
  three-byte forms become the four-byte form.
\<close>

fun merge_surrogates :: "string \<Rightarrow> string" where
  "merge_surrogates (a # b # c # d # e # f # r) =
     (let b' = (of_char b :: nat); c' = (of_char c :: nat);
          e' = (of_char e :: nat); f' = (of_char f :: nat)
      in if of_char a = (0xED :: nat) \<and> 0xA0 \<le> b' \<and> b' \<le> 0xAF \<and> 0x80 \<le> c' \<and> c' \<le> 0xBF
            \<and> of_char d = (0xED :: nat) \<and> 0xB0 \<le> e' \<and> e' \<le> 0xBF \<and> 0x80 \<le> f' \<and> f' \<le> 0xBF
         then utf8 (0x10000 + ((b' - 0xA0) * 64 + (c' - 0x80)) * 1024
                      + ((e' - 0xB0) * 64 + (f' - 0x80))) @ merge_surrogates r
         else a # merge_surrogates (b # c # d # e # f # r))"
| "merge_surrogates cs = cs"

definition unescape :: "char \<Rightarrow> char option" where
  "unescape c =
     (if c = CHR 0x22 \<or> c = CHR 0x5C \<or> c = CHR ''/'' then Some c
      else if c = CHR ''b'' then Some (CHR 0x08)
      else if c = CHR ''f'' then Some (CHR 0x0C)
      else if c = CHR ''n'' then Some (CHR 0x0A)
      else if c = CHR ''r'' then Some (CHR 0x0D)
      else if c = CHR ''t'' then Some (CHR 0x09)
      else None)"

text \<open>
  \<open>lex_string acc cs\<close> reads the characters of a string after its opening quote, up to
  the closing quote; a control character or the end of the text fails.
\<close>

fun lex_string :: "string \<Rightarrow> string \<Rightarrow> (string \<times> string) option" where
  "lex_string acc [] = None"
| "lex_string acc (c # cs) =
     (if c = CHR 0x22 then Some (merge_surrogates acc, cs)
      else if c = CHR 0x5C then
        (case cs of
           [] \<Rightarrow> None
         | e # r \<Rightarrow>
             if e = CHR ''u'' then
               (case hex4 r of
                  None \<Rightarrow> None
                | Some cp \<Rightarrow> lex_string (acc @ utf8 cp) (drop 4 r))
             else
               (case unescape e of
                  None \<Rightarrow> None
                | Some x \<Rightarrow> lex_string (acc @ [x]) r))
      else if (of_char c :: nat) < 0x20 then None
      else lex_string (acc @ [c]) cs)"

subsection \<open>Tokens\<close>

lemma strip_prefix_length: "strip_prefix p s = Some r \<Longrightarrow> length s = length p + length r"
  by (induction p s rule: strip_prefix.induct) (auto split: if_splits)

lemma lex_string_length: "lex_string acc cs = Some (s, r) \<Longrightarrow> length r < Suc (length cs)"
proof (induction acc cs rule: lex_string.induct)
  case (1 acc)
  then show ?case by simp
next
  case (2 acc c cs)
  show ?case
  proof (cases "c = CHR 0x22")
    case True
    with 2(4) show ?thesis by simp
  next
    case nq: False
    show ?thesis
    proof (cases "c = CHR 0x5C")
      case True
      with nq 2(4) obtain e r' where cs: "cs = e # r'"
        by (cases cs) auto
      show ?thesis
      proof (cases "e = CHR ''u''")
        case u: True
        with nq True cs 2(4) obtain cp where h: "hex4 r' = Some cp"
          and l: "lex_string (acc @ utf8 cp) (drop 4 r') = Some (s, r)"
          by (auto split: option.splits)
        from 2(1) [OF nq True cs u h l] show ?thesis
          using cs by simp
      next
        case nu: False
        with nq True cs 2(4) obtain x where h: "unescape e = Some x"
          and l: "lex_string (acc @ [x]) r' = Some (s, r)"
          by (auto split: option.splits)
        from 2(2) [OF nq True cs nu h l] show ?thesis
          using cs by simp
      qed
    next
      case nb: False
      with nq 2(4) have c: "\<not> (of_char c :: nat) < 0x20"
        and l: "lex_string (acc @ [c]) cs = Some (s, r)"
        by (auto split: if_splits)
      from 2(3) [OF nq nb c l] show ?thesis by simp
    qed
  qed
qed

lemma lex_fraction_length: "lex_fraction cs = Some (f, r) \<Longrightarrow> length r \<le> length cs"
  by (auto simp: lex_fraction_def Let_def length_dropWhile_le le_SucI
           split: list.splits if_splits)

lemma lex_exponent_length: "lex_exponent cs = Some (e, r) \<Longrightarrow> length r \<le> length cs"
  by (auto simp: lex_exponent_def Let_def length_dropWhile_le le_SucI
           split: list.splits if_splits)

lemma dropWhile_shorter: "takeWhile P xs \<noteq> [] \<Longrightarrow> length (dropWhile P xs) < length xs"
  by (cases xs) (auto simp: length_dropWhile_le less_Suc_eq_le split: if_splits)

lemma lex_sign_length: "lex_sign cs = (neg, r) \<Longrightarrow> length r \<le> length cs"
  by (auto simp: lex_sign_def split: list.splits if_splits)

lemma lex_number_length:
  assumes "lex_number cs = Some (q, r)"
  shows "length r < length cs"
proof -
  obtain neg cs1 where s: "lex_sign cs = (neg, cs1)"
    by (cases "lex_sign cs")
  from assms s have nz: "takeWhile is_digit cs1 \<noteq> []"
    by (auto simp: lex_number_def Let_def split: if_splits)
  from assms s nz obtain f cs2 e where
    f: "lex_fraction (dropWhile is_digit cs1) = Some (f, cs2)" and
    e: "lex_exponent cs2 = Some (e, r)"
    by (auto simp: lex_number_def Let_def split: if_splits option.splits)
  have "length r \<le> length cs2"
    using e by (rule lex_exponent_length)
  also have "\<dots> \<le> length (dropWhile is_digit cs1)"
    using f by (rule lex_fraction_length)
  also have "\<dots> < length cs1"
    using nz by (rule dropWhile_shorter)
  also have "\<dots> \<le> length cs"
    using s by (rule lex_sign_length)
  finally show ?thesis .
qed

function lex :: "string \<Rightarrow> token list option" where
  "lex [] = Some []"
| "lex (c # cs) =
     (if is_ws c then lex cs
      else if c = CHR ''{'' then map_option (Cons LBrace) (lex cs)
      else if c = CHR ''}'' then map_option (Cons RBrace) (lex cs)
      else if c = CHR ''['' then map_option (Cons LBracket) (lex cs)
      else if c = CHR '']'' then map_option (Cons RBracket) (lex cs)
      else if c = CHR '':'' then map_option (Cons Colon) (lex cs)
      else if c = CHR '','' then map_option (Cons Comma) (lex cs)
      else if c = CHR 0x22 then
        (case lex_string [] cs of
           None \<Rightarrow> None
         | Some (s, r) \<Rightarrow> map_option (Cons (TStr s)) (lex r))
      else if c = CHR ''-'' \<or> is_digit c then
        (case lex_number (c # cs) of
           None \<Rightarrow> None
         | Some (q, r) \<Rightarrow> map_option (Cons (TNum q)) (lex r))
      else if c = CHR ''t'' then
        (case strip_prefix ''rue'' cs of
           None \<Rightarrow> None
         | Some r \<Rightarrow> map_option (Cons TTrue) (lex r))
      else if c = CHR ''f'' then
        (case strip_prefix ''alse'' cs of
           None \<Rightarrow> None
         | Some r \<Rightarrow> map_option (Cons TFalse) (lex r))
      else if c = CHR ''n'' then
        (case strip_prefix ''ull'' cs of
           None \<Rightarrow> None
         | Some r \<Rightarrow> map_option (Cons TNull) (lex r))
      else None)"
  by pat_completeness auto
termination
  apply (relation "measure length")
              apply simp_all
  subgoal for c cs x2 x y using lex_string_length [of "[]" cs x y] by simp
  subgoal for c cs x2 x y using lex_number_length [of "c # cs" x y] by simp
  subgoal for c cs x2 using strip_prefix_length [of "''rue''" cs x2] by simp
  subgoal for c cs x2 using strip_prefix_length [of "''alse''" cs x2] by simp
  subgoal for c cs x2 using strip_prefix_length [of "''ull''" cs x2] by simp
  done

subsection \<open>The grammar\<close>

datatype frame =
    FArr "json list"
  | FObj "(string \<times> json) list"
  | FKey "(string \<times> json) list" string

datatype expect = EValue | EValueOrClose | EKeyOrClose | EKey | EColon | ESep

datatype pstate = Parsing expect "frame list" | Parsed json

text \<open>
  A finished value goes to the innermost open container, or is the result. A name that
  is repeated in an object keeps its last value.
\<close>

fun push_value :: "json \<Rightarrow> frame list \<Rightarrow> pstate option" where
  "push_value v [] = Some (Parsed v)"
| "push_value v (FArr vs # st) = Some (Parsing ESep (FArr (vs @ [v]) # st))"
| "push_value v (FKey kvs k # st) = Some (Parsing ESep (FObj (set_member kvs k v) # st))"
| "push_value v (FObj kvs # st) = None"

fun value_token :: "token \<Rightarrow> frame list \<Rightarrow> pstate option" where
  "value_token (TStr s) st = push_value (JStr s) st"
| "value_token (TNum q) st = push_value (JNum q) st"
| "value_token TTrue st = push_value (JBool True) st"
| "value_token TFalse st = push_value (JBool False) st"
| "value_token TNull st = push_value JNull st"
| "value_token LBracket st = Some (Parsing EValueOrClose (FArr [] # st))"
| "value_token LBrace st = Some (Parsing EKeyOrClose (FObj [] # st))"
| "value_token RBrace st = None"
| "value_token RBracket st = None"
| "value_token Colon st = None"
| "value_token Comma st = None"

fun close_array :: "frame list \<Rightarrow> pstate option" where
  "close_array (FArr vs # st) = push_value (JArr vs) st"
| "close_array st = None"

fun close_object :: "frame list \<Rightarrow> pstate option" where
  "close_object (FObj kvs # st) = push_value (JObj kvs) st"
| "close_object st = None"

fun open_key :: "string \<Rightarrow> frame list \<Rightarrow> pstate option" where
  "open_key k (FObj kvs # st) = Some (Parsing EColon (FKey kvs k # st))"
| "open_key k st = None"

fun separator :: "frame list \<Rightarrow> pstate option" where
  "separator (FArr vs # st) = Some (Parsing EValue (FArr vs # st))"
| "separator (FObj kvs # st) = Some (Parsing EKey (FObj kvs # st))"
| "separator st = None"

fun parse_step :: "pstate \<Rightarrow> token \<Rightarrow> pstate option" where
  "parse_step (Parsed v) t = None"
| "parse_step (Parsing EValue st) t = value_token t st"
| "parse_step (Parsing EValueOrClose st) t =
     (if t = RBracket then close_array st else value_token t st)"
| "parse_step (Parsing EKeyOrClose st) t =
     (case t of RBrace \<Rightarrow> close_object st | TStr k \<Rightarrow> open_key k st | _ \<Rightarrow> None)"
| "parse_step (Parsing EKey st) t = (case t of TStr k \<Rightarrow> open_key k st | _ \<Rightarrow> None)"
| "parse_step (Parsing EColon st) t = (if t = Colon then Some (Parsing EValue st) else None)"
| "parse_step (Parsing ESep st) t =
     (case t of
        Comma \<Rightarrow> separator st
      | RBracket \<Rightarrow> close_array st
      | RBrace \<Rightarrow> close_object st
      | _ \<Rightarrow> None)"

fun parse_tokens :: "pstate \<Rightarrow> token list \<Rightarrow> json option" where
  "parse_tokens (Parsed v) [] = Some v"
| "parse_tokens (Parsing e st) [] = None"
| "parse_tokens ps (t # ts) =
     (case parse_step ps t of None \<Rightarrow> None | Some ps' \<Rightarrow> parse_tokens ps' ts)"

definition JSON_parse :: "string \<Rightarrow> js_error + json" where
  "JSON_parse s =
     (case lex s of
        None \<Rightarrow> Inl SyntaxError
      | Some ts \<Rightarrow>
          (case parse_tokens (Parsing EValue []) ts of
             None \<Rightarrow> Inl SyntaxError
           | Some v \<Rightarrow> Inr v))"

section \<open>Collaborators\<close>

text \<open>
  What the handler does to the outside world is recorded as a list of events, in the
  order of the calls. The outside world itself is a record of outcomes: within one
  request every call to a collaborator has arguments of its own (the files and commands
  are named by the fragment's index), so a function of the arguments gives every
  possible course of a request. Every call is taken to complete; a collaborator that
  fails raises an \<^verbatim>\<open>Error\<close> with a message.
\<close>

datatype event =
    Generate json
  | Speech string string
  | Exec string
  | ReadFile string

datatype proc_result =
    Not_started string
  | Ended "nat option" string string

record env =
  ELEVEN_LABS_API_KEY :: "string option"
  GEMINI_API_KEY :: "string option"
  generateContent :: "json \<Rightarrow> js_error + string"
  textToSpeech :: "string \<Rightarrow> string \<Rightarrow> js_error option"
  run_process :: "string \<Rightarrow> proc_result"
  readFile :: "string \<Rightarrow> js_error + string"
  readFile_utf8 :: "string \<Rightarrow> js_error + string"
  engine_message :: "js_error \<Rightarrow> string"
  js_less :: "nat \<Rightarrow> json \<Rightarrow> bool"

text \<open>
  \<open>generateContent env text\<close> is the outcome of \<^verbatim>\<open>model.generateContent\<close> followed by
  \<^verbatim>\<open>completion.response.text()\<close> for the user text (the system instruction and the
  generation settings are constants); \<open>textToSpeech env file text\<close> that of
  \<^verbatim>\<open>voice.textToSpeech\<close> with the configured key and voice; \<open>run_process env command\<close>
  how the child process of a command goes: \<open>Not_started m\<close> when the shell cannot be
  started, with the message of that error, and otherwise \<open>Ended code out err\<close> with the
  exit status (\<open>None\<close> when a signal ended the process) and the bytes that
  \<^verbatim>\<open>exec\<close> received on the standard output and on the error output until both were
  closed; \<open>readFile\<close> and \<open>readFile_utf8\<close> the bytes and the decoded text of a file;
  \<open>engine_message\<close> the text the engine gives its own errors; \<open>js_less env i v\<close>
  the engine's comparison \<^verbatim>\<open>i < v\<close> of an index with a parsed value, which coerces
  \<open>v\<close> to a double.
\<close>

type_synonym 'a eff = "(js_error + 'a) \<times> event list"

definition then_eff :: "'a eff \<Rightarrow> ('a \<Rightarrow> 'b eff) \<Rightarrow> 'b eff" where
  "then_eff m f =
     (case m of
        (Inl e, tr) \<Rightarrow> (Inl e, tr)
      | (Inr x, tr) \<Rightarrow> (case f x of (r, tr') \<Rightarrow> (r, tr @ tr')))"

definition with_trace :: "event list \<Rightarrow> 'a \<times> event list \<Rightarrow> 'a \<times> event list" where
  "with_trace tr r = (fst r, tr @ snd r)"

definition message_of :: "env \<Rightarrow> js_error \<Rightarrow> string" where
  "message_of env e = (case e of Failure m \<Rightarrow> m | _ \<Rightarrow> engine_message env e)"

subsection \<open>External Tool Invoker\<close>

text \<open>
  Node's \<^verbatim>\<open>child_process.exec\<close>, called as line 61 calls it, with no options, so
  with the default limit \<^verbatim>\<open>maxBuffer\<close> of 1 MiB on each output. It calls back with
  \<^verbatim>\<open>(error, stdout, stderr)\<close>, following \<^verbatim>\<open>lib/child_process.js\<close>:
  \<^item> a shell that cannot be started gives that error, and empty outputs;
  \<^item> an output that passes the limit is cut at the limit, the process is killed, and the
    error is \<^verbatim>\<open>stdout maxBuffer length exceeded\<close> (or \<^verbatim>\<open>stderr\<close>), whatever the
    exit status; both outputs are closed then, so at most one of them is past the limit;
  \<^item> otherwise the error is \<^verbatim>\<open>null\<close> when the process exits with status zero, and
    else an \<^verbatim>\<open>Error\<close> whose message is \<^verbatim>\<open>Command failed:\<close>, the command, a
    newline and the error output.
\<close>

definition maxBuffer :: nat where
  "maxBuffer = 1024 * 1024"

definition exec :: "env \<Rightarrow> string \<Rightarrow> js_error option \<times> string \<times> string" where
  "exec env command =
     (case run_process env command of
        Not_started m \<Rightarrow> (Some (Failure m), [], [])
      | Ended code out err \<Rightarrow>
          (if maxBuffer < length out then Some (Failure ''stdout maxBuffer length exceeded'')
           else if maxBuffer < length err then Some (Failure ''stderr maxBuffer length exceeded'')
           else if code = Some 0 then None
           else Some (Failure (''Command failed: '' @ command @ [CHR 0x0A] @ err)),
           take maxBuffer out, take maxBuffer err))"

text \<open>
  A promise is settled by the first call of \<^verbatim>\<open>reject\<close> or \<^verbatim>\<open>resolve\<close> in its
  executor. \<open>settled_by calls final\<close> is the settlement after \<open>calls\<close> and then
  \<open>final\<close>.
\<close>

fun settled_by :: "(js_error + 'a) list \<Rightarrow> js_error + 'a \<Rightarrow> js_error + 'a" where
  "settled_by [] final = final"
| "settled_by (c # cs) final = c"

text \<open>
  \<^verbatim>\<open>execCommand\<close> (lines 59-66): \<^verbatim>\<open>if (error) reject(error); resolve(stdout);\<close>.
\<close>

definition execCommand :: "env \<Rightarrow> string \<Rightarrow> string eff" where
  "execCommand env command =
     (case exec env command of
        (error, stdout, stderr) \<Rightarrow>
          (settled_by (case error of Some e \<Rightarrow> [Inl e] | None \<Rightarrow> []) (Inr stdout),
           [Exec command]))"

subsection \<open>Files of a fragment\<close>

text \<open>The decimal form of an index, as the template literals write it.\<close>

definition digit_char :: "nat \<Rightarrow> char" where
  "digit_char d = char_of (48 + d)"

function decimal :: "nat \<Rightarrow> string" where
  "decimal n = (if 10 \<le> n then decimal (n div 10) @ [digit_char (n mod 10)] else [digit_char n])"
  by pat_completeness auto
termination
  by (relation "measure id") auto

definition message_file :: "nat \<Rightarrow> string \<Rightarrow> string" where
  "message_file i ext = ''audios/message_'' @ decimal i @ ext"

definition ffmpeg_command :: "nat \<Rightarrow> string" where
  "ffmpeg_command i =
     ''ffmpeg -y -i '' @ message_file i ''.mp3'' @ '' '' @ message_file i ''.wav''"

definition rhubarb_command :: "nat \<Rightarrow> string" where
  "rhubarb_command i =
     ''./bin/rhubarb -f json -o '' @ message_file i ''.json'' @ '' ''
       @ message_file i ''.wav'' @ '' -r phonetic''"

text \<open>
  \<^verbatim>\<open>lipSyncMessage\<close> (lines 73-94): the two commands in sequence; its handler logs
  and raises again.
\<close>

definition lipSyncMessage :: "env \<Rightarrow> nat \<Rightarrow> unit eff" where
  "lipSyncMessage env messageIndex =
     then_eff (execCommand env (ffmpeg_command messageIndex)) (\<lambda>_.
     then_eff (execCommand env (rhubarb_command messageIndex)) (\<lambda>_.
     (Inr (), [])))"

subsection \<open>Reading files back\<close>

definition b64_char :: "nat \<Rightarrow> char" where
  "b64_char n =
     ''ABCDEFGHIJKLMNOPQRSTUVWXYZabcdefghijklmnopqrstuvwxyz0123456789+/'' ! (n mod 64)"

fun base64 :: "string \<Rightarrow> string" where
  "base64 (a # b # c # r) =
     (let x = (of_char a :: nat); y = (of_char b :: nat); z = (of_char c :: nat)
      in [b64_char (x div 4), b64_char (x mod 4 * 16 + y div 16),
          b64_char (y mod 16 * 4 + z div 64), b64_char (z mod 64)] @ base64 r)"
| "base64 [a, b] =
     (let x = (of_char a :: nat); y = (of_char b :: nat)
      in [b64_char (x div 4), b64_char (x mod 4 * 16 + y div 16),
          b64_char (y mod 16 * 4), CHR ''=''])"
| "base64 [a] =
     (let x = (of_char a :: nat)
      in [b64_char (x div 4), b64_char (x mod 4 * 16), CHR ''='', CHR ''=''])"
| "base64 [] = []"

text \<open>\<^verbatim>\<open>audioFileToBase64\<close> (lines 247-250) and \<^verbatim>\<open>readJsonTranscript\<close> (lines 242-245).\<close>

definition audioFileToBase64 :: "env \<Rightarrow> string \<Rightarrow> string eff" where
  "audioFileToBase64 env file =
     (case readFile env file of
        Inl e \<Rightarrow> (Inl e, [ReadFile file])
      | Inr data \<Rightarrow> (Inr (base64 data), [ReadFile file]))"

definition readJsonTranscript :: "env \<Rightarrow> string \<Rightarrow> json eff" where
  "readJsonTranscript env file =
     (case readFile_utf8 env file of
        Inl e \<Rightarrow> (Inl e, [ReadFile file])
      | Inr data \<Rightarrow> (JSON_parse data, [ReadFile file]))"

section \<open>The chat handler\<close>

text \<open>
  In \<^verbatim>\<open>src/index.js\<close> a copy of the start-up call (lines 206-228) stands inside the
  handler of the per-fragment \<^verbatim>\<open>try\<close>; the handler is read with that text left out:
  \<^verbatim>\<open>catch (audioError)\<close> logs (lines 203-205) and closes (line 229), the loop
  closes (line 230), and \<^verbatim>\<open>res.send({ messages })\<close> follows (line 232).
\<close>

subsection \<open>Media Pipeline Stage\<close>

text \<open>
  The body of the \<^verbatim>\<open>try\<close> (lines 190-202), one definition for each awaited step. A
  step gives the error raised, if any, and the fragment as it is at that moment: the two
  assignments change the fragment in place, so what they did stays when a later step
  raises.
\<close>

definition attach_lipsync :: "env \<Rightarrow> nat \<Rightarrow> json \<Rightarrow> (js_error option \<times> json) \<times> event list" where
  "attach_lipsync env i message =
     (case readJsonTranscript env (message_file i ''.json'') of
        (Inl e, tr) \<Rightarrow> ((Some e, message), tr)
      | (Inr lipsync, tr) \<Rightarrow>
          (case assign message ''lipsync'' lipsync of
             Inl e \<Rightarrow> ((Some e, message), tr)
           | Inr message' \<Rightarrow> ((None, message'), tr)))"

definition attach_audio :: "env \<Rightarrow> nat \<Rightarrow> json \<Rightarrow> (js_error option \<times> json) \<times> event list" where
  "attach_audio env i message =
     (case audioFileToBase64 env (message_file i ''.mp3'') of
        (Inl e, tr) \<Rightarrow> ((Some e, message), tr)
      | (Inr audio, tr) \<Rightarrow>
          (case assign message ''audio'' (JStr audio) of
             Inl e \<Rightarrow> ((Some e, message), tr)
           | Inr message' \<Rightarrow> with_trace tr (attach_lipsync env i message')))"

definition after_speech :: "env \<Rightarrow> nat \<Rightarrow> json \<Rightarrow> (js_error option \<times> json) \<times> event list" where
  "after_speech env i message =
     (case lipSyncMessage env i of
        (Inl e, tr) \<Rightarrow> ((Some e, message), tr)
      | (Inr u, tr) \<Rightarrow> with_trace tr (attach_audio env i message))"

text \<open>
  Line 191 calls \<^verbatim>\<open>textInput.substring\<close> for the log, which raises unless
  \<^verbatim>\<open>textInput\<close> is a string; line 192 is the synthesis.
\<close>

definition media_pipeline ::
  "env \<Rightarrow> nat \<Rightarrow> json \<Rightarrow> json option \<Rightarrow> (js_error option \<times> json) \<times> event list" where
  "media_pipeline env i message textInput =
     (case textInput of
        Some (JStr t) \<Rightarrow>
          with_trace [Speech (message_file i ''.mp3'') t]
            (case textToSpeech env (message_file i ''.mp3'') t of
               Some e \<Rightarrow> ((Some e, message), [])
             | None \<Rightarrow> after_speech env i message)
      | _ \<Rightarrow> ((Some TypeError, message), []))"

subsection \<open>Turn Orchestrator\<close>

text \<open>
  One round of the loop (lines 185-205): \<^verbatim>\<open>message.text\<close> is read before the
  \<^verbatim>\<open>try\<close>, so a \<^verbatim>\<open>null\<close> element raises out of the loop; what the
  \<^verbatim>\<open>try\<close> raises is logged and dropped.
\<close>

definition process_message :: "env \<Rightarrow> nat \<Rightarrow> json \<Rightarrow> json eff" where
  "process_message env i message =
     (case get_prop message ''text'' of
        Inl e \<Rightarrow> (Inl e, [])
      | Inr textInput \<Rightarrow>
          (case media_pipeline env i message textInput of
             ((audioError, message'), tr) \<Rightarrow> (Inr message', tr)))"

text \<open>The loop over an array, from index \<open>i\<close> on.\<close>

fun process_from :: "env \<Rightarrow> nat \<Rightarrow> json list \<Rightarrow> (json list) eff" where
  "process_from env i [] = (Inr [], [])"
| "process_from env i (message # rest) =
     then_eff (process_message env i message) (\<lambda>message'.
     then_eff (process_from env (Suc i) rest) (\<lambda>rest'.
     (Inr (message' # rest'), [])))"

text \<open>
  The loop over an object that has a \<^verbatim>\<open>length\<close> member \<open>len\<close>: round \<open>i\<close> is entered
  when the engine finds \<^verbatim>\<open>i < messages.length\<close>; \<^verbatim>\<open>messages[i]\<close> is the member
  named by the decimal form of \<open>i\<close>, and reading the text of a missing one raises. The
  fragment is changed in place, so the object holds it afterwards. A loop that does not
  end gives \<open>None\<close>.
\<close>

partial_function (option) array_like_loop ::
  "env \<Rightarrow> json \<Rightarrow> nat \<Rightarrow> (string \<times> json) list \<Rightarrow> event list \<Rightarrow> (json eff) option" where
  "array_like_loop env len i kvs tr =
     (if js_less env i len then
        (case map_of kvs (decimal i) of
           None \<Rightarrow> Some (Inl TypeError, tr)
         | Some message \<Rightarrow>
             (case process_message env i message of
                (Inl e, tr') \<Rightarrow> Some (Inl e, tr @ tr')
              | (Inr message', tr') \<Rightarrow>
                  array_like_loop env len (Suc i) (set_member kvs (decimal i) message')
                    (tr @ tr')))
      else Some (Inr (JObj kvs), tr))"

declare array_like_loop.simps [code]

text \<open>
  The loop for each kind of value. A number or a boolean has no \<^verbatim>\<open>length\<close>; every
  character of a string has no \<^verbatim>\<open>text\<close>, so each round raises inside the
  \<^verbatim>\<open>try\<close>; an object without a \<^verbatim>\<open>length\<close> member is not entered.
\<close>

definition for_loop :: "env \<Rightarrow> json \<Rightarrow> (json eff) option" where
  "for_loop env messages =
     (case messages of
        JArr xs \<Rightarrow> Some (then_eff (process_from env 0 xs) (\<lambda>ys. (Inr (JArr ys), [])))
      | JObj kvs \<Rightarrow>
          (case map_of kvs ''length'' of
             None \<Rightarrow> Some (Inr messages, [])
           | Some len \<Rightarrow> array_like_loop env len 0 kvs [])
      | JNull \<Rightarrow> Some (Inl TypeError, [])
      | _ \<Rightarrow> Some (Inr messages, []))"

text \<open>
  Line 175: \<^verbatim>\<open>replace\<close> with a pattern that is not global removes the first match
  only; each pattern is a literal followed by an optional newline.
\<close>

fun drop_newline :: "string \<Rightarrow> string" where
  "drop_newline [] = []"
| "drop_newline (c # cs) = (if c = CHR 0x0A then cs else c # cs)"

fun remove_first :: "string \<Rightarrow> string \<Rightarrow> string" where
  "remove_first pat [] = []"
| "remove_first pat (c # cs) =
     (case strip_prefix pat (c # cs) of
        Some r \<Rightarrow> drop_newline r
      | None \<Rightarrow> c # remove_first pat cs)"

definition strip_fences :: "string \<Rightarrow> string" where
  "strip_fences responseText = remove_first ''```'' (remove_first ''```json'' responseText)"

text \<open>Lines 178-181: the parsed reply, unwrapped when it has a truthy \<^verbatim>\<open>messages\<close>.\<close>

definition unwrap_messages :: "json \<Rightarrow> js_error + json" where
  "unwrap_messages parsed =
     (case get_prop parsed ''messages'' of
        Inl e \<Rightarrow> Inl e
      | Inr None \<Rightarrow> Inr parsed
      | Inr (Some m) \<Rightarrow> Inr (if truthy m then m else parsed))"

text \<open>Lines 172-232: from the text of the reply to the body that is sent.\<close>

definition handle_reply :: "env \<Rightarrow> string \<Rightarrow> (json eff) option" where
  "handle_reply env responseText =
     (case JSON_parse (strip_fences responseText) of
        Inl e \<Rightarrow> Some (Inl e, [])
      | Inr parsed \<Rightarrow>
          (case unwrap_messages parsed of
             Inl e \<Rightarrow> Some (Inl e, [])
           | Inr messages \<Rightarrow>
               map_option (\<lambda>r. then_eff r (\<lambda>ms. (Inr (JObj [(''messages'', ms)]), [])))
                 (for_loop env messages)))"

subsection \<open>Canned Response Selector\<close>

text \<open>
  A fragment of a canned response, with its members in the order of the object literal.
  While the literal is built the audio file is read, then the viseme document, and the
  first failure leaves the literal.
\<close>

definition fragment :: "string \<Rightarrow> string \<Rightarrow> json \<Rightarrow> string \<Rightarrow> string \<Rightarrow> json" where
  "fragment txt audio lipsync expression animation =
     JObj [(''text'', JStr txt), (''audio'', JStr audio), (''lipsync'', lipsync),
           (''facialExpression'', JStr expression), (''animation'', JStr animation)]"

definition canned_fragment ::
  "env \<Rightarrow> string \<Rightarrow> string \<Rightarrow> string \<Rightarrow> string \<Rightarrow> string \<Rightarrow> json eff" where
  "canned_fragment env txt wav transcript expression animation =
     then_eff (audioFileToBase64 env wav) (\<lambda>audio.
     then_eff (readJsonTranscript env transcript) (\<lambda>lipsync.
     (Inr (fragment txt audio lipsync expression animation), [])))"

definition canned_pair :: "json eff \<Rightarrow> json eff \<Rightarrow> json eff" where
  "canned_pair first second =
     then_eff first (\<lambda>a. then_eff second (\<lambda>b.
     (Inr (JObj [(''messages'', JArr [a, b])]), [])))"

text \<open>Lines 103-120.\<close>

definition greeting :: "env \<Rightarrow> json eff" where
  "greeting env =
     canned_pair
       (canned_fragment env ''Hey dear... How was your day?''
          ''audios/intro_0.wav'' ''audios/intro_0.json'' ''smile'' ''Talking_1'')
       (canned_fragment env ''I missed you so much... Please don't go for so long!''
          ''audios/intro_1.wav'' ''audios/intro_1.json'' ''sad'' ''Crying'')"

text \<open>Lines 126-143.\<close>

definition api_keys_reminder :: "env \<Rightarrow> json eff" where
  "api_keys_reminder env =
     canned_pair
       (canned_fragment env ''Please my dear, don't forget to add your API keys!''
          ''audios/api_0.wav'' ''audios/api_0.json'' ''angry'' ''Angry'')
       (canned_fragment env
          ''You don't want to ruin this with a crazy Gemini and ElevenLabs bill, right?''
          ''audios/api_1.wav'' ''audios/api_1.json'' ''smile'' ''Laughing'')"

text \<open>
  Line 125: \<^verbatim>\<open>!elevenLabsApiKey || process.env.GEMINI_API_KEY === "-"\<close>.
\<close>

definition keys_missing :: "env \<Rightarrow> bool" where
  "keys_missing env =
     ((case ELEVEN_LABS_API_KEY env of None \<Rightarrow> True | Some k \<Rightarrow> k = [])
      \<or> GEMINI_API_KEY env = Some ''-'')"

subsection \<open>The handler of POST /chat\<close>

record response =
  status :: nat
  payload :: json

text \<open>
  The body of the outer \<^verbatim>\<open>try\<close> (lines 99-232), for the body of the request
  (\<open>None\<close> when the request has none).
\<close>

definition turn :: "env \<Rightarrow> json option \<Rightarrow> (json eff) option" where
  "turn env body =
     (case (case body of None \<Rightarrow> Inl TypeError | Some b \<Rightarrow> get_prop b ''message'') of
        Inl e \<Rightarrow> Some (Inl e, [])
      | Inr userMessage \<Rightarrow>
          (case userMessage of
             None \<Rightarrow> Some (greeting env)
           | Some m \<Rightarrow>
               if truthy m then
                 (if keys_missing env then Some (api_keys_reminder env)
                  else
                    (let userText = (if truthy m then m else JStr ''Hello'') in
                     case generateContent env userText of
                       Inl e \<Rightarrow> Some (Inl e, [Generate userText])
                     | Inr responseText \<Rightarrow>
                         map_option (with_trace [Generate userText])
                           (handle_reply env responseText)))
               else Some (greeting env)))"

text \<open>
  The handler (lines 97-240): what is sent, with status 200, or the failure response of
  the outer \<^verbatim>\<open>catch\<close>, with status 500; \<open>None\<close> when the loop does not end.
\<close>

definition chat :: "env \<Rightarrow> json option \<Rightarrow> (response \<times> event list) option" where
  "chat env body =
     map_option
       (\<lambda>r. case r of
          (Inl e, tr) \<Rightarrow>
            (\<lparr>status = 500,
              payload = JObj [(''error'', JStr ''Failed to process message''),
                              (''details'', JStr (message_of env e))]\<rparr>, tr)
        | (Inr sent, tr) \<Rightarrow> (\<lparr>status = 200, payload = sent\<rparr>, tr))
       (turn env body)"

section \<open>Turns\<close>


definition has_message :: "json option \<Rightarrow> json \<Rightarrow> bool" where
  "has_message body m =
     ((case body of None \<Rightarrow> False | Some b \<Rightarrow> get_prop b ''message'' = Inr (Some m))
      \<and> truthy m)"

definition normal_request :: "env \<Rightarrow> json option \<Rightarrow> json \<Rightarrow> bool" where
  "normal_request env body m = (has_message body m \<and> (if keys_missing env then False else True))"

text \<open>
  Of the child of a command: it stayed within the limit of \<^verbatim>\<open>exec\<close> on both outputs;
  it ran and exited with status zero.
\<close>

definition within_buffer :: "proc_result \<Rightarrow> bool" where
  "within_buffer r =
     (case r of
        Not_started m \<Rightarrow> True
      | Ended code out err \<Rightarrow> length out \<le> maxBuffer \<and> length err \<le> maxBuffer)"

definition exits_zero :: "proc_result \<Rightarrow> bool" where
  "exits_zero r = (case r of Not_started m \<Rightarrow> False | Ended code out err \<Rightarrow> code = Some 0)"


text \<open>
  What one round of the loop leaves of a fragment, and what it does; and a fragment
  without the two members the pipeline adds.
\<close>

definition emitted :: "env \<Rightarrow> nat \<Rightarrow> json \<Rightarrow> json" where
  "emitted env i x = (case process_message env i x of (Inr y, tr) \<Rightarrow> y | (Inl e, tr) \<Rightarrow> x)"

definition round_events :: "env \<Rightarrow> nat \<Rightarrow> json \<Rightarrow> event list" where
  "round_events env i x = snd (process_message env i x)"


text \<open>
  \<open>occurs pat s\<close>: the text \<open>pat\<close> stands somewhere in \<open>s\<close>. \<open>fenced n1 n2 s\<close> is
  \<open>s\<close> in a Markdown code fence, with \<open>n1\<close> after the opening fence and \<open>n2\<close> before
  the closing one.
\<close>

fun occurs :: "string \<Rightarrow> string \<Rightarrow> bool" where
  "occurs pat [] = (pat = [])"
| "occurs pat (c # cs) =
     (case strip_prefix pat (c # cs) of Some r \<Rightarrow> True | None \<Rightarrow> occurs pat cs)"

definition fenced :: "string \<Rightarrow> string \<Rightarrow> string \<Rightarrow> string" where
  "fenced n1 n2 s = ''```json'' @ n1 @ s @ n2 @ ''```''"





subsection \<open>Example runs\<close>

text \<open>
  A world in which everything works: both keys are set, the model answers with two
  fragments in a code fence (the second without a text), synthesis succeeds, both
  commands exit with status zero and every file can be read. No reply of the examples
  is an object with a \<^verbatim>\<open>length\<close>, so \<open>js_less\<close> is never consulted.
\<close>

definition quoted :: "string \<Rightarrow> string" where
  "quoted s = [CHR 0x22] @ s @ [CHR 0x22]"

definition two_fragments :: string where
  "two_fragments =
     ''[{'' @ quoted ''text'' @ '': '' @ quoted ''Xin chao'' @ '', ''
        @ quoted ''facialExpression'' @ '': '' @ quoted ''smile'' @ '', ''
        @ quoted ''animation'' @ '': '' @ quoted ''Talking_1'' @ ''}, {''
        @ quoted ''facialExpression'' @ '': '' @ quoted ''sad'' @ '', ''
        @ quoted ''animation'' @ '': '' @ quoted ''Crying'' @ ''}]''"

definition studio :: env where
  "studio =
     \<lparr>ELEVEN_LABS_API_KEY = Some ''el-key'',
      GEMINI_API_KEY = Some ''g-key'',
      generateContent = (\<lambda>m. Inr (fenced [CHR 0x0A] [CHR 0x0A] two_fragments)),
      textToSpeech = (\<lambda>file t. None),
      run_process = (\<lambda>command. Ended (Some 0) [] []),
      readFile = (\<lambda>file. Inr ''RIFF''),
      readFile_utf8 = (\<lambda>file. Inr ''{}''),
      engine_message =
        (\<lambda>e. if e = SyntaxError then ''Unexpected token'' else ''Cannot read properties''),
      js_less = (\<lambda>i v. False)\<rparr>"

definition hello :: "json option" where
  "hello = Some (JObj [(''message'', JStr ''hello'')])"

definition two_fragment_list :: "json list" where
  "two_fragment_list =
     [JObj [(''text'', JStr ''Xin chao''), (''facialExpression'', JStr ''smile''),
            (''animation'', JStr ''Talking_1'')],
      JObj [(''facialExpression'', JStr ''sad''), (''animation'', JStr ''Crying'')]]"

definition wrapped_two_fragments :: string where
  "wrapped_two_fragments = ''{'' @ quoted ''messages'' @ '': '' @ two_fragments @ ''}''"

text \<open>
  Variations: a reply whose text holds a code fence of its own, and a world where the
  model wraps that reply in fences; a reply of one fragment in a world where the viseme
  document of the fragment cannot be parsed; a world where the variable
  \<^verbatim>\<open>GEMINI_API_KEY\<close> is not set; a world where every command fails with status 1
  and a line of error output; and a world where every command exits with status zero
  after one byte more than the limit of log on its error output.
\<close>

definition fragment_with_code :: string where
  "fragment_with_code =
     ''[{'' @ quoted ''text'' @ '': '' @ quoted ''Try ```print(1)``` now'' @ ''}]''"

definition inner_fence :: env where
  "inner_fence =
     studio\<lparr>generateContent := (\<lambda>m. Inr (fenced [CHR 0x0A] [CHR 0x0A] fragment_with_code))\<rparr>"

definition failing_tools :: env where
  "failing_tools = studio\<lparr>run_process := (\<lambda>command. Ended (Some 1) [] ''No such file'')\<rparr>"

definition verbose_tools :: env where
  "verbose_tools =
     studio\<lparr>run_process := (\<lambda>command. Ended (Some 0) [] (replicate (Suc maxBuffer) CHR ''.''))\<rparr>"

definition one_fragment :: string where
  "one_fragment =
     ''[{'' @ quoted ''text'' @ '': '' @ quoted ''Xin chao'' @ '', ''
        @ quoted ''facialExpression'' @ '': '' @ quoted ''smile'' @ '', ''
        @ quoted ''animation'' @ '': '' @ quoted ''Talking_1'' @ ''}]''"

definition broken_transcript :: env where
  "broken_transcript =
     studio\<lparr>generateContent := (\<lambda>m. Inr one_fragment), readFile_utf8 := (\<lambda>file. Inr ''{'')\<rparr>"

definition no_gemini_key :: env where
  "no_gemini_key = studio\<lparr>GEMINI_API_KEY := None, generateContent := (\<lambda>m. Inr ''[]'')\<rparr>"

section \<open>Properties\<close>

subsection \<open>A trailing newline does not change what JSON.parse gives\<close>

lemma not_digit_newline: "\<not> is_digit (CHR 0x0A)"
  by (simp add: is_digit_def)

lemma takeWhile_snoc_newline: "takeWhile is_digit (xs @ [CHR 0x0A]) = takeWhile is_digit xs"
  by (induction xs) (auto simp: not_digit_newline)

lemma dropWhile_snoc_newline:
  "dropWhile is_digit (xs @ [CHR 0x0A]) = dropWhile is_digit xs @ [CHR 0x0A]"
  by (induction xs) (auto simp: not_digit_newline)

lemma strip_prefix_snoc:
  "x \<notin> set p \<Longrightarrow> strip_prefix p (s @ [x]) = map_option (\<lambda>r. r @ [x]) (strip_prefix p s)"
  by (induction p s rule: strip_prefix.induct) auto

lemma lex_sign_snoc:
  "lex_sign (cs @ [CHR 0x0A]) = (fst (lex_sign cs), snd (lex_sign cs) @ [CHR 0x0A])"
  by (cases cs) (auto simp: lex_sign_def)

lemma lex_fraction_snoc:
  "lex_fraction (cs @ [CHR 0x0A]) =
     map_option (\<lambda>(f, r). (f, r @ [CHR 0x0A])) (lex_fraction cs)"
  by (cases cs)
     (auto simp: lex_fraction_def Let_def takeWhile_snoc_newline dropWhile_snoc_newline)

lemma lex_exponent_snoc:
  "lex_exponent (cs @ [CHR 0x0A]) =
     map_option (\<lambda>(f, r). (f, r @ [CHR 0x0A])) (lex_exponent cs)"
proof (cases cs)
  case Nil
  then show ?thesis by (simp add: lex_exponent_def)
next
  case (Cons c r)
  show ?thesis
  proof (cases r)
    case Nil
    with Cons show ?thesis
      by (simp add: lex_exponent_def not_digit_newline)
  next
    case (Cons s r')
    with \<open>cs = c # r\<close> show ?thesis
      by (simp add: lex_exponent_def Let_def takeWhile_snoc_newline dropWhile_snoc_newline)
  qed
qed

lemma lex_number_snoc:
  "lex_number (cs @ [CHR 0x0A]) =
     map_option (\<lambda>(q, r). (q, r @ [CHR 0x0A])) (lex_number cs)"
  by (auto simp: lex_number_def Let_def lex_sign_snoc lex_fraction_snoc lex_exponent_snoc
        takeWhile_snoc_newline dropWhile_snoc_newline
      split: prod.splits option.splits)

lemma hex_val_newline: "hex_val (CHR 0x0A) = None"
  by (simp add: hex_val_def)

lemma hex4_snoc: "hex4 (r @ [CHR 0x0A]) = hex4 r"
proof (cases r)
  case Nil
  then show ?thesis by (simp add: hex4_def)
next
  case r1: (Cons a r1)
  show ?thesis
  proof (cases r1)
    case Nil
    with r1 show ?thesis by (simp add: hex4_def)
  next
    case r2: (Cons b r2)
    show ?thesis
    proof (cases r2)
      case Nil
      with r1 r2 show ?thesis by (simp add: hex4_def)
    next
      case r3: (Cons c r3)
      show ?thesis
      proof (cases r3)
        case Nil
        with r1 r2 r3 show ?thesis
          by (simp add: hex4_def hex_val_newline split: option.splits)
      next
        case (Cons d r4)
        with r1 r2 r3 show ?thesis by (simp add: hex4_def)
      qed
    qed
  qed
qed

lemma hex4_length: "hex4 r = Some cp \<Longrightarrow> 4 \<le> length r"
  by (auto simp: hex4_def split: list.splits)

lemma unescape_newline: "unescape (CHR 0x0A) = None"
  by (simp add: unescape_def)

lemma lex_string_snoc:
  "lex_string acc (cs @ [CHR 0x0A]) =
     map_option (\<lambda>(s, r). (s, r @ [CHR 0x0A])) (lex_string acc cs)"
proof (induction acc cs rule: lex_string.induct)
  case (1 acc)
  show ?case by (simp add: unescape_newline)
next
  case (2 acc c cs)
  show ?case
  proof (cases "c = CHR 0x22")
    case True
    then show ?thesis by simp
  next
    case nq: False
    show ?thesis
    proof (cases "c = CHR 0x5C")
      case bsl: True
      show ?thesis
      proof (cases cs)
        case Nil
        with nq bsl show ?thesis by (simp add: unescape_newline)
      next
        case (Cons e r)
        show ?thesis
        proof (cases "e = CHR ''u''")
          case u: True
          show ?thesis
          proof (cases "hex4 r")
            case None
            with nq bsl Cons u show ?thesis by (simp add: hex4_snoc)
          next
            case (Some cp)
            from hex4_length [OF Some] have d: "drop 4 (r @ [CHR 0x0A]) = drop 4 r @ [CHR 0x0A]"
              by simp
            from "2.IH"(1) [OF nq bsl Cons u Some] nq bsl Cons u Some d
            show ?thesis by (simp add: hex4_snoc)
          qed
        next
          case nu: False
          show ?thesis
          proof (cases "unescape e")
            case None
            with nq bsl Cons nu show ?thesis by simp
          next
            case (Some x)
            from "2.IH"(2) [OF nq bsl Cons nu Some] nq bsl Cons nu Some
            show ?thesis by simp
          qed
        qed
      qed
    next
      case nb: False
      show ?thesis
      proof (cases "(of_char c :: nat) < 0x20")
        case True
        with nq nb show ?thesis by simp
      next
        case False
        from "2.IH"(3) [OF nq nb False] nq nb False show ?thesis by simp
      qed
    qed
  qed
qed

lemma lex_snoc_newline: "lex (s @ [CHR 0x0A]) = lex s"
proof (induction "length s" arbitrary: s rule: less_induct)
  case less
  show ?case
  proof (cases s)
    case Nil
    then show ?thesis by (simp add: is_ws_def)
  next
    case (Cons c cs)
    have A: "lex (cs @ [CHR 0x0A]) = lex cs"
      using less [of cs] Cons by simp
    have B: "lex (snd x @ [CHR 0x0A]) = lex (snd x)" if "lex_string [] cs = Some x" for x
      using less [of "snd x"] lex_string_length [of "[]" cs "fst x" "snd x"] that Cons by simp
    have C: "lex (snd x @ [CHR 0x0A]) = lex (snd x)" if "lex_number (c # cs) = Some x" for x
      using less [of "snd x"] lex_number_length [of "c # cs" "fst x" "snd x"] that Cons by simp
    have D: "lex (x @ [CHR 0x0A]) = lex x" if "strip_prefix p cs = Some x" for x p
      using less [of x] strip_prefix_length [of p cs x] that Cons by simp
    have num: "lex_number (c # cs @ [CHR 0x0A]) =
        map_option (\<lambda>(q, r). (q, r @ [CHR 0x0A])) (lex_number (c # cs))"
      using lex_number_snoc [of "c # cs"] by simp
    have nl: "CHR 0x0A \<notin> set ''rue''" "CHR 0x0A \<notin> set ''alse''" "CHR 0x0A \<notin> set ''ull''"
      by simp_all
    have "lex (c # cs @ [CHR 0x0A]) = lex (c # cs)"
      apply (simp only: lex.simps(2) num lex_string_snoc strip_prefix_snoc [OF nl(1)]
          strip_prefix_snoc [OF nl(2)] strip_prefix_snoc [OF nl(3)] case_map_option
          case_prod_unfold comp_def fst_conv snd_conv A)
      apply (simp only: B C D cong: option.case_cong if_cong)
      done
    with Cons show ?thesis by simp
  qed
qed

lemma JSON_parse_snoc_newline: "JSON_parse (s @ [CHR 0x0A]) = JSON_parse s"
  by (simp add: JSON_parse_def lex_snoc_newline)

lemma JSON_parse_cons_newline: "JSON_parse (CHR 0x0A # s) = JSON_parse s"
  by (simp add: JSON_parse_def is_ws_def)

subsection \<open>Removing the fences\<close>

lemma remove_first_absent: "\<not> occurs pat s \<Longrightarrow> remove_first pat s = s"
  by (induction s) (auto split: option.splits)

lemma strip_prefix_append:
  "strip_prefix (p @ q) s = Some r \<Longrightarrow> strip_prefix p s = Some (q @ r)"
proof (induction p s rule: strip_prefix.induct)
  case (1 s)
  then show ?case
  proof (induction q arbitrary: s)
    case Nil
    then show ?case by simp
  next
    case (Cons a q)
    then show ?case by (cases s) (auto split: if_splits)
  qed
qed (auto split: if_splits)

lemma occurs_longer: "occurs (p @ q) s \<Longrightarrow> p \<noteq> [] \<Longrightarrow> occurs p s"
proof (induction s)
  case Nil
  then show ?case by simp
next
  case (Cons c cs)
  then show ?case
    by (cases "strip_prefix (p @ q) (c # cs)")
       (auto dest: strip_prefix_append split: option.splits)
qed

lemma no_json_fence: "\<not> occurs ''```'' s \<Longrightarrow> \<not> occurs ''```json'' s"
  using occurs_longer [of "''```''" "''json''" s] by auto

lemma strip_fences_plain: "\<not> occurs ''```'' s \<Longrightarrow> strip_fences s = s"
  by (simp add: strip_fences_def remove_first_absent no_json_fence)

lemma remove_opening: "remove_first ''```json'' (''```json'' @ x) = drop_newline x"
  by simp

lemma remove_closing: "\<not> occurs ''```'' s \<Longrightarrow> remove_first ''```'' (s @ ''```'') = s"
proof (induction s)
  case Nil
  then show ?case by simp
next
  case (Cons c cs)
  then have ih: "remove_first ''```'' (cs @ ''```'') = cs"
    and no: "strip_prefix ''```'' (c # cs) = None"
    by (auto split: option.splits)
  show ?case
  proof (cases "strip_prefix ''```'' (c # cs @ ''```'')")
    case None
    with ih show ?thesis by simp
  next
    case (Some r)
    with no have "r = c # cs \<and> c = CHR 0x60"
      by (cases cs; cases "tl cs") (auto split: if_splits)
    with Some show ?thesis by simp
  qed
qed

lemma occurs_snoc_newline:
  "\<not> occurs ''```'' s \<Longrightarrow> \<not> occurs ''```'' (s @ [CHR 0x0A])"
proof (induction s)
  case Nil
  then show ?case by simp
next
  case (Cons c cs)
  have "CHR 0x0A \<notin> set ''```''" by simp
  from strip_prefix_snoc [OF this, of "c # cs"] Cons show ?case
    by (auto split: option.splits)
qed

lemma occurs_drop_newline: "\<not> occurs p s \<Longrightarrow> \<not> occurs p (drop_newline s)"
  by (cases s) (auto split: option.splits)

lemma JSON_parse_drop_newline: "JSON_parse (drop_newline s) = JSON_parse s"
  by (cases s) (auto simp: JSON_parse_cons_newline)

lemma strip_fenced:
  assumes no: "\<not> occurs ''```'' s"
    and n1: "n1 = [] \<or> n1 = [CHR 0x0A]"
    and n2: "n2 = [] \<or> n2 = [CHR 0x0A]"
  shows "JSON_parse (strip_fences (fenced n1 n2 s)) = JSON_parse s"
proof -
  have tail: "JSON_parse (x @ n2) = JSON_parse x" for x
    using n2 by (auto simp: JSON_parse_snoc_newline)
  have no_tail: "\<not> occurs ''```'' (x @ n2)" if "\<not> occurs ''```'' x" for x
    using n2 that by (auto simp: occurs_snoc_newline)
  have closing: "remove_first ''```'' (x @ n2 @ ''```'') = x @ n2" if "\<not> occurs ''```'' x" for x
    using remove_closing [OF no_tail [OF that]] by simp
  have "strip_fences (fenced n1 n2 s) = remove_first ''```'' (drop_newline (n1 @ s @ n2 @ ''```''))"
    by (simp add: strip_fences_def fenced_def)
  moreover have "JSON_parse (remove_first ''```'' (drop_newline (n1 @ s @ n2 @ ''```''))) = JSON_parse s"
  proof (cases "n1 = []")
    case False
    with n1 have "drop_newline (n1 @ s @ n2 @ ''```'') = s @ n2 @ ''```''"
      by auto
    with closing [OF no] tail show ?thesis by simp
  next
    case True
    show ?thesis
    proof (cases s)
      case Nil
      with True n2 show ?thesis by auto
    next
      case (Cons c cs)
      with True have "drop_newline (n1 @ s @ n2 @ ''```'') = drop_newline s @ n2 @ ''```''"
        by simp
      with closing [OF occurs_drop_newline [OF no]] tail JSON_parse_drop_newline
      show ?thesis by simp
    qed
  qed
  ultimately show ?thesis by simp
qed

subsection \<open>The branches\<close>

lemma turn_normal:
  assumes "normal_request env body m"
  shows "turn env body =
     (case generateContent env m of
        Inl e \<Rightarrow> Some (Inl e, [Generate m])
      | Inr responseText \<Rightarrow> map_option (with_trace [Generate m]) (handle_reply env responseText))"
  using assms
  by (auto simp: normal_request_def has_message_def turn_def Let_def
           split: option.splits if_splits)


lemma unwrap_bare: "unwrap_messages (JArr L) = Inr (JArr L)"
  by (simp add: unwrap_messages_def)

lemma unwrap_wrapped:
  "map_of kvs ''messages'' = Some (JArr L) \<Longrightarrow> unwrap_messages (JObj kvs) = Inr (JArr L)"
  by (simp add: unwrap_messages_def)

lemma snd_audioFileToBase64: "snd (audioFileToBase64 env file) = [ReadFile file]"
  by (simp add: audioFileToBase64_def split: sum.splits)

lemma snd_readJsonTranscript: "snd (readJsonTranscript env file) = [ReadFile file]"
  by (simp add: readJsonTranscript_def split: sum.splits)




lemma canned_fragment_events:
  "set (snd (canned_fragment env txt wav transcript expression animation))
     \<subseteq> {ReadFile wav, ReadFile transcript}"
proof -
  obtain r1 where 1: "audioFileToBase64 env wav = (r1, [ReadFile wav])"
    using snd_audioFileToBase64 [of env wav] by (cases "audioFileToBase64 env wav") simp
  obtain r2 where 2: "readJsonTranscript env transcript = (r2, [ReadFile transcript])"
    using snd_readJsonTranscript [of env transcript]
    by (cases "readJsonTranscript env transcript") simp
  show ?thesis
    by (cases r1; cases r2) (simp_all add: canned_fragment_def then_eff_def 1 2)
qed

lemma canned_pair_events:
  "set (snd (canned_pair first second)) \<subseteq> set (snd first) \<union> set (snd second)"
  by (cases first; cases second)
     (auto simp: canned_pair_def then_eff_def split: sum.splits prod.splits)


lemma api_keys_reminder_events:
  "set (snd (api_keys_reminder env)) \<subseteq>
     {ReadFile ''audios/api_0.wav'', ReadFile ''audios/api_0.json'',
      ReadFile ''audios/api_1.wav'', ReadFile ''audios/api_1.json''}"
proof -
  let ?a = "canned_fragment env ''Please my dear, don't forget to add your API keys!''
          ''audios/api_0.wav'' ''audios/api_0.json'' ''angry'' ''Angry''"
  let ?b = "canned_fragment env
          ''You don't want to ruin this with a crazy Gemini and ElevenLabs bill, right?''
          ''audios/api_1.wav'' ''audios/api_1.json'' ''smile'' ''Laughing''"
  have "set (snd (api_keys_reminder env)) \<subseteq> set (snd ?a) \<union> set (snd ?b)"
    unfolding api_keys_reminder_def by (rule canned_pair_events)
  moreover have "set (snd ?a) \<subseteq> {ReadFile ''audios/api_0.wav'', ReadFile ''audios/api_0.json''}"
    by (rule canned_fragment_events)
  moreover have "set (snd ?b) \<subseteq> {ReadFile ''audios/api_1.wav'', ReadFile ''audios/api_1.json''}"
    by (rule canned_fragment_events)
  ultimately show ?thesis by blast
qed





subsection \<open>The loop\<close>

lemma get_prop_not_null: "x \<noteq> JNull \<Longrightarrow> \<exists>t. get_prop x k = Inr t"
  by (cases x) auto

lemma process_message_not_null:
  "x \<noteq> JNull \<Longrightarrow> process_message env i x = (Inr (emitted env i x), round_events env i x)"
  using get_prop_not_null [of x "''text''"]
  by (auto simp: emitted_def round_events_def process_message_def split: prod.splits)

lemma process_from_not_null:
  "JNull \<notin> set xs \<Longrightarrow>
   process_from env i xs =
     (Inr (map (\<lambda>(j, x). emitted env j x) (enumerate i xs)),
      concat (map (\<lambda>(j, x). round_events env j x) (enumerate i xs)))"
proof (induction xs arbitrary: i)
  case Nil
  show ?case by simp
next
  case (Cons x xs)
  then have x: "x \<noteq> JNull" and xs: "JNull \<notin> set xs" by auto
  show ?case
    by (simp add: process_message_not_null [OF x] Cons.IH [OF xs] then_eff_def)
qed




lemma snd_with_trace: "snd (with_trace tr r) = tr @ snd r"
  by (simp add: with_trace_def)





lemma chat_normal_array:
  assumes "normal_request env body m"
    and "generateContent env m = Inr responseText"
    and "JSON_parse (strip_fences responseText) = Inr parsed"
    and "unwrap_messages parsed = Inr (JArr xs)"
    and "JNull \<notin> set xs"
  shows "chat env body =
     Some (\<lparr>status = 200,
            payload = JObj [(''messages'',
                             JArr (map (\<lambda>(j, x). emitted env j x) (enumerate 0 xs)))]\<rparr>,
           Generate m # concat (map (\<lambda>(j, x). round_events env j x) (enumerate 0 xs)))"
  using assms(1-4)
  by (simp add: chat_def turn_normal handle_reply_def for_loop_def then_eff_def with_trace_def
        process_from_not_null [OF assms(5)])

lemma nth_emitted:
  "i < length xs \<Longrightarrow>
   map (\<lambda>(j, x). emitted env j x) (enumerate 0 xs) ! i = emitted env i (xs ! i)"
  by (simp add: nth_enumerate_eq)





text \<open>
  A step that fails before the viseme document is read leaves the fragment as it was.
\<close>

lemma early_failure_keeps_fragment:
  assumes "media_pipeline env i x t = ((Some e, y), tr)"
    and "ReadFile (message_file i ''.json'') \<notin> set tr"
  shows "y = x"
proof -
  have l: "ReadFile (message_file i ''.json'') \<in> set (snd (attach_lipsync env i z))" for z
    using snd_readJsonTranscript [of env "message_file i ''.json''"]
    by (cases "readJsonTranscript env (message_file i ''.json'')")
       (auto simp: attach_lipsync_def split: sum.splits)
  have a: "snd (fst (attach_audio env i z)) = z
      \<or> ReadFile (message_file i ''.json'') \<in> set (snd (attach_audio env i z))" for z
    using l by (auto simp: attach_audio_def with_trace_def split: prod.splits sum.splits)
  have s: "snd (fst (after_speech env i z)) = z
      \<or> ReadFile (message_file i ''.json'') \<in> set (snd (after_speech env i z))" for z
    using a [of z] by (auto simp: after_speech_def with_trace_def split: prod.splits sum.splits)
  have "snd (fst (media_pipeline env i x t)) = x
      \<or> ReadFile (message_file i ''.json'') \<in> set (snd (media_pipeline env i x t))"
    using s [of x]
    by (auto simp: media_pipeline_def with_trace_def split: option.splits json.splits)
  with assms show ?thesis by simp
qed

section \<open>The claims\<close>

text \<open>
  C8, amended. For every command line whose process writes no more than the limit of
  \<^verbatim>\<open>exec\<close> (1 MiB) on its standard output and on its error output,
  \<^verbatim>\<open>execCommand\<close> resolves, with the standard output of the process, if and only if
  the process exits with status zero; otherwise it is rejected: with an error whose
  message ends with the error output of the process when the process ran, and with the
  error of the start when the shell could not be started.
\<close>

theorem execCommand_within_buffer:
  assumes "within_buffer (run_process env command)"
  shows "execCommand env command =
           (case exec env command of
              (Some e, out, err) \<Rightarrow> Inl e
            | (None, out, err) \<Rightarrow> Inr out,
            [Exec command])
       \<and> ((\<exists>v. fst (execCommand env command) = Inr v) = exits_zero (run_process env command))
       \<and> execCommand env command =
           (case run_process env command of
              Not_started m \<Rightarrow> Inl (Failure m)
            | Ended code out err \<Rightarrow>
                if code = Some 0 then Inr out
                else Inl (Failure (''Command failed: '' @ command @ [CHR 0x0A] @ err)),
            [Exec command])"
  using assms
  by (cases "run_process env command")
     (auto simp: within_buffer_def exits_zero_def execCommand_def exec_def)

theorem execCommand_within_buffer_witness:
  "execCommand studio (ffmpeg_command 0) = (Inr [], [Exec (ffmpeg_command 0)])
   \<and> execCommand failing_tools (ffmpeg_command 0) =
       (Inl (Failure (''Command failed: '' @ ffmpeg_command 0 @ [CHR 0x0A] @ ''No such file'')),
        [Exec (ffmpeg_command 0)])"
proof -
  have 1: "within_buffer (run_process studio (ffmpeg_command 0))"
    by (simp add: within_buffer_def studio_def)
  have 2: "within_buffer (run_process failing_tools (ffmpeg_command 0))"
    by (simp add: within_buffer_def failing_tools_def maxBuffer_def)
  have 3: "run_process studio (ffmpeg_command 0) = Ended (Some 0) [] []"
    by (simp add: studio_def)
  have 4: "run_process failing_tools (ffmpeg_command 0) = Ended (Some 1) [] ''No such file''"
    by (simp add: failing_tools_def)
  from execCommand_within_buffer [OF 1, THEN conjunct2, THEN conjunct2]
  have a: "execCommand studio (ffmpeg_command 0) = (Inr [], [Exec (ffmpeg_command 0)])"
    unfolding 3 by simp
  from execCommand_within_buffer [OF 2, THEN conjunct2, THEN conjunct2]
  have b: "execCommand failing_tools (ffmpeg_command 0) =
       (Inl (Failure (''Command failed: '' @ ffmpeg_command 0 @ [CHR 0x0A] @ ''No such file'')),
        [Exec (ffmpeg_command 0)])"
    unfolding 4 by simp
  from a b show ?thesis by simp
qed

text \<open>
  C8 as stated fails: a process that exits with status zero after more than 1 MiB of log
  on its error output. \<^verbatim>\<open>exec\<close> calls back with the error of the limit, so
  \<^verbatim>\<open>execCommand\<close> is rejected although the status is zero, and the message of the
  error holds nothing of the error output.
\<close>

theorem execCommand_exit_zero_rejected:
  "run_process verbose_tools (ffmpeg_command 0)
     = Ended (Some 0) [] (replicate (Suc maxBuffer) CHR ''.'')
   \<and> exits_zero (run_process verbose_tools (ffmpeg_command 0))
   \<and> execCommand verbose_tools (ffmpeg_command 0) =
       (Inl (Failure ''stderr maxBuffer length exceeded''), [Exec (ffmpeg_command 0)])"
  by (simp add: verbose_tools_def exits_zero_def execCommand_def exec_def)

text \<open>
  C3. In a NORMAL turn, when the text of the model's reply, after the fences are removed,
  is not valid JSON, the request fails as a whole: the status is 500, the body has the
  members \<^verbatim>\<open>error\<close> and \<^verbatim>\<open>details\<close>, and nothing but the model was called.
\<close>

theorem malformed_reply_fails_request:
  assumes "normal_request env body m"
    and "generateContent env m = Inr responseText"
    and "JSON_parse (strip_fences responseText) = Inl e"
  shows "chat env body =
     Some (\<lparr>status = 500,
            payload = JObj [(''error'', JStr ''Failed to process message''),
                            (''details'', JStr (message_of env e))]\<rparr>,
           [Generate m])"
  using assms by (simp add: chat_def turn_normal handle_reply_def with_trace_def)

theorem malformed_reply_fails_request_witness:
  "chat (studio\<lparr>generateContent := (\<lambda>m. Inr ''Sorry, I cannot answer that.'')\<rparr>) hello =
     Some (\<lparr>status = 500,
            payload = JObj [(''error'', JStr ''Failed to process message''),
                            (''details'', JStr ''Unexpected token'')]\<rparr>,
           [Generate (JStr ''hello'')])"
proof -
  let ?env = "studio\<lparr>generateContent := (\<lambda>m. Inr ''Sorry, I cannot answer that.'')\<rparr>"
  have 1: "normal_request ?env hello (JStr ''hello'')"
    by (simp add: normal_request_def has_message_def studio_def hello_def keys_missing_def)
  have 2: "generateContent ?env (JStr ''hello'') = Inr ''Sorry, I cannot answer that.''"
    by simp
  have 3: "JSON_parse (strip_fences ''Sorry, I cannot answer that.'') = Inl SyntaxError"
    by code_simp
  from malformed_reply_fails_request [OF 1 2 3] show ?thesis
    by (simp add: message_of_def studio_def)
qed

text \<open>
  C5. A reply that parses to the bare array \<open>L\<close> and a reply that parses to the object
  \<^verbatim>\<open>{messages: L}\<close> give the same fragment list \<open>L\<close>, and the same processing and
  the same body that is sent.
\<close>

theorem bare_array_and_wrapped_alike:
  assumes "JSON_parse (strip_fences t1) = Inr (JArr L)"
    and "JSON_parse (strip_fences t2) = Inr (JObj [(''messages'', JArr L)])"
  shows "unwrap_messages (JArr L) = Inr (JArr L)
       \<and> unwrap_messages (JObj [(''messages'', JArr L)]) = Inr (JArr L)
       \<and> handle_reply env t1 = handle_reply env t2"
  using assms by (simp add: handle_reply_def unwrap_messages_def)

theorem bare_array_and_wrapped_alike_witness:
  "JSON_parse (strip_fences two_fragments) = Inr (JArr two_fragment_list)
   \<and> JSON_parse (strip_fences wrapped_two_fragments)
       = Inr (JObj [(''messages'', JArr two_fragment_list)])
   \<and> unwrap_messages (JObj [(''messages'', JArr two_fragment_list)])
       = Inr (JArr two_fragment_list)
   \<and> handle_reply studio two_fragments = handle_reply studio wrapped_two_fragments"
proof -
  have 1: "JSON_parse (strip_fences two_fragments) = Inr (JArr two_fragment_list)"
    by code_simp
  have 2: "JSON_parse (strip_fences wrapped_two_fragments)
      = Inr (JObj [(''messages'', JArr two_fragment_list)])"
    by code_simp
  from bare_array_and_wrapped_alike [OF 1 2, of studio] 1 2 show ?thesis
    by simp
qed

text \<open>
  C9. When the reply parses to the empty array, or to \<^verbatim>\<open>{messages: []}\<close>, the request
  succeeds with status 200 and the body \<^verbatim>\<open>{messages: []}\<close>, and the model is the only
  collaborator that was called: no synthesis, no command, no file.
\<close>

theorem empty_reply_sends_empty_list:
  assumes "normal_request env body m"
    and "generateContent env m = Inr responseText"
    and "JSON_parse (strip_fences responseText) = Inr parsed"
    and "parsed = JArr [] \<or> parsed = JObj [(''messages'', JArr [])]"
  shows "chat env body =
     Some (\<lparr>status = 200, payload = JObj [(''messages'', JArr [])]\<rparr>, [Generate m])"
  using assms
  by (auto simp: chat_def turn_normal handle_reply_def unwrap_messages_def for_loop_def
        then_eff_def with_trace_def)

theorem empty_reply_sends_empty_list_witness:
  "chat (studio\<lparr>generateContent := (\<lambda>m. Inr ''[]'')\<rparr>) hello =
     Some (\<lparr>status = 200, payload = JObj [(''messages'', JArr [])]\<rparr>,
           [Generate (JStr ''hello'')])
   \<and> chat (studio\<lparr>generateContent := (\<lambda>m. Inr (''{'' @ quoted ''messages'' @ '': []}''))\<rparr>) hello =
     Some (\<lparr>status = 200, payload = JObj [(''messages'', JArr [])]\<rparr>,
           [Generate (JStr ''hello'')])"
proof -
  let ?bare = "studio\<lparr>generateContent := (\<lambda>m. Inr ''[]'')\<rparr>"
  let ?wrapped = "studio\<lparr>generateContent := (\<lambda>m. Inr (''{'' @ quoted ''messages'' @ '': []}''))\<rparr>"
  have b1: "normal_request ?bare hello (JStr ''hello'')"
    by (simp add: normal_request_def has_message_def studio_def hello_def keys_missing_def)
  have b2: "generateContent ?bare (JStr ''hello'') = Inr ''[]''"
    by simp
  have b3: "JSON_parse (strip_fences ''[]'') = Inr (JArr [])"
    by code_simp
  have w1: "normal_request ?wrapped hello (JStr ''hello'')"
    by (simp add: normal_request_def has_message_def studio_def hello_def keys_missing_def)
  have w2: "generateContent ?wrapped (JStr ''hello'') = Inr (''{'' @ quoted ''messages'' @ '': []}'')"
    by simp
  have w3: "JSON_parse (strip_fences (''{'' @ quoted ''messages'' @ '': []}''))
      = Inr (JObj [(''messages'', JArr [])])"
    by code_simp
  from empty_reply_sends_empty_list [OF b1 b2 b3] empty_reply_sends_empty_list [OF w1 w2 w3]
  show ?thesis by simp
qed







text \<open>
  Where the reply holds no run of three backquotes, line 175 does what its comment says:
  the text in a fence \<^verbatim>\<open>```json\<close> ... \<^verbatim>\<open>```\<close>, with or without a newline inside
  each fence, parses as the text alone, and the rest of the turn is the same.
\<close>

lemma fenced_reply_parses_alike:
  assumes "\<not> occurs ''```'' s"
    and "n1 = [] \<or> n1 = [CHR 0x0A]"
    and "n2 = [] \<or> n2 = [CHR 0x0A]"
  shows "JSON_parse (strip_fences (fenced n1 n2 s)) = JSON_parse (strip_fences s)
       \<and> handle_reply env (fenced n1 n2 s) = handle_reply env s"
  using strip_fenced [OF assms] strip_fences_plain [OF assms(1)]
  by (simp add: handle_reply_def)

lemma fenced_reply_parses_alike_example:
  "JSON_parse (strip_fences (fenced [CHR 0x0A] [CHR 0x0A] two_fragments))
     = JSON_parse (strip_fences two_fragments)
   \<and> JSON_parse (strip_fences two_fragments) = Inr (JArr two_fragment_list)
   \<and> handle_reply studio (fenced [CHR 0x0A] [CHR 0x0A] two_fragments)
     = handle_reply studio two_fragments"
proof -
  have 1: "\<not> occurs ''```'' two_fragments"
    by code_simp
  have 2: "[CHR 0x0A] = [] \<or> [CHR 0x0A] = [CHR 0x0A]"
    by simp
  have 3: "JSON_parse (strip_fences two_fragments) = Inr (JArr two_fragment_list)"
    by code_simp
  from fenced_reply_parses_alike [OF 1 2 2, of studio] 3 show ?thesis
    by simp
qed

text \<open>
  C4. The run of the handler where the claim fails: a valid JSON reply whose text holds
  a code fence of its own. Both patterns of line 175 take the first match wherever it
  stands. Alone, the reply loses the first run of backquotes inside its text and still
  parses; wrapped in fences, it loses that same run in place of the closing fence, the
  closing fence stays, \<^verbatim>\<open>JSON.parse\<close> raises and the turn ends with status 500.
\<close>

theorem inner_fence_breaks_fenced_reply:
  "JSON_parse fragment_with_code
     = Inr (JArr [JObj [(''text'', JStr ''Try ```print(1)``` now'')]])
   \<and> JSON_parse (strip_fences fragment_with_code)
     = Inr (JArr [JObj [(''text'', JStr ''Try print(1)``` now'')]])
   \<and> strip_fences (fenced [CHR 0x0A] [CHR 0x0A] fragment_with_code)
     = ''[{'' @ quoted ''text'' @ '': '' @ quoted ''Try print(1)``` now'' @ ''}]''
         @ [CHR 0x0A] @ ''```''
   \<and> JSON_parse (strip_fences (fenced [CHR 0x0A] [CHR 0x0A] fragment_with_code))
     = Inl SyntaxError
   \<and> chat inner_fence hello
     = Some (\<lparr>status = 500,
              payload = JObj [(''error'', JStr ''Failed to process message''),
                              (''details'', JStr ''Unexpected token'')]\<rparr>,
             [Generate (JStr ''hello'')])"
  by code_simp

text \<open>
  C1. The run of the handler where the claim fails: synthesis, both commands and the read
  of the audio succeed, and parsing the viseme document raises. The assignment of
  \<^verbatim>\<open>message.audio\<close> (line 199) is done by then, so the fragment is sent with
  \<^verbatim>\<open>audio\<close> and without \<^verbatim>\<open>lipsync\<close>.
\<close>

theorem transcript_failure_leaves_audio:
  "media_pipeline broken_transcript 0
       (JObj [(''text'', JStr ''Xin chao''), (''facialExpression'', JStr ''smile''),
              (''animation'', JStr ''Talking_1'')])
       (Some (JStr ''Xin chao''))
     = ((Some SyntaxError,
         JObj [(''text'', JStr ''Xin chao''), (''facialExpression'', JStr ''smile''),
               (''animation'', JStr ''Talking_1''), (''audio'', JStr ''UklGRg=='')]),
        [Speech ''audios/message_0.mp3'' ''Xin chao'',
         Exec ''ffmpeg -y -i audios/message_0.mp3 audios/message_0.wav'',
         Exec ''./bin/rhubarb -f json -o audios/message_0.json audios/message_0.wav -r phonetic'',
         ReadFile ''audios/message_0.mp3'', ReadFile ''audios/message_0.json''])
   \<and> chat broken_transcript hello
     = Some (\<lparr>status = 200,
              payload = JObj [(''messages'',
                JArr [JObj [(''text'', JStr ''Xin chao''), (''facialExpression'', JStr ''smile''),
                            (''animation'', JStr ''Talking_1''),
                            (''audio'', JStr ''UklGRg=='')]])]\<rparr>,
             [Generate (JStr ''hello''),
              Speech ''audios/message_0.mp3'' ''Xin chao'',
              Exec ''ffmpeg -y -i audios/message_0.mp3 audios/message_0.wav'',
              Exec ''./bin/rhubarb -f json -o audios/message_0.json audios/message_0.wav -r phonetic'',
              ReadFile ''audios/message_0.mp3'', ReadFile ''audios/message_0.json''])"
proof -
  let ?x = "JObj [(''text'', JStr ''Xin chao''), (''facialExpression'', JStr ''smile''),
                  (''animation'', JStr ''Talking_1'')]"
  let ?y = "JObj [(''text'', JStr ''Xin chao''), (''facialExpression'', JStr ''smile''),
                  (''animation'', JStr ''Talking_1''), (''audio'', JStr ''UklGRg=='')]"
  have names: "message_file 0 ''.mp3'' = ''audios/message_0.mp3''"
    "message_file 0 ''.json'' = ''audios/message_0.json''"
    "ffmpeg_command 0 = ''ffmpeg -y -i audios/message_0.mp3 audios/message_0.wav''"
    "rhubarb_command 0 =
       ''./bin/rhubarb -f json -o audios/message_0.json audios/message_0.wav -r phonetic''"
    by code_simp+
  have speech: "textToSpeech broken_transcript ''audios/message_0.mp3'' ''Xin chao'' = None"
    by (simp add: broken_transcript_def studio_def)
  have ran: "run_process broken_transcript command = Ended (Some 0) [] []" for command
    by (simp add: broken_transcript_def studio_def)
  have commands: "lipSyncMessage broken_transcript 0 =
      (Inr (), [Exec (ffmpeg_command 0), Exec (rhubarb_command 0)])"
    by (simp add: lipSyncMessage_def execCommand_def exec_def then_eff_def ran)
  have reads: "attach_audio broken_transcript 0 ?x =
      ((Some SyntaxError, ?y),
       [ReadFile ''audios/message_0.mp3'', ReadFile ''audios/message_0.json''])"
    by code_simp
  have pipeline: "media_pipeline broken_transcript 0 ?x (Some (JStr ''Xin chao'')) =
      ((Some SyntaxError, ?y),
       [Speech ''audios/message_0.mp3'' ''Xin chao'', Exec (ffmpeg_command 0),
        Exec (rhubarb_command 0),
        ReadFile ''audios/message_0.mp3'', ReadFile ''audios/message_0.json''])"
    by (simp add: media_pipeline_def after_speech_def with_trace_def names(1) speech commands
          reads)
  have n1: "normal_request broken_transcript hello (JStr ''hello'')"
    by code_simp
  have n2: "generateContent broken_transcript (JStr ''hello'') = Inr one_fragment"
    by (simp add: broken_transcript_def)
  have n3: "JSON_parse (strip_fences one_fragment) = Inr (JArr [?x])"
    by code_simp
  have n4: "unwrap_messages (JArr [?x]) = Inr (JArr [?x])"
    by (simp add: unwrap_messages_def)
  have n5: "JNull \<notin> set [?x]"
    by simp
  have round: "process_message broken_transcript 0 ?x =
      (Inr ?y,
       [Speech ''audios/message_0.mp3'' ''Xin chao'', Exec (ffmpeg_command 0),
        Exec (rhubarb_command 0),
        ReadFile ''audios/message_0.mp3'', ReadFile ''audios/message_0.json''])"
    by (simp add: process_message_def pipeline)
  from chat_normal_array [OF n1 n2 n3 n4 n5] round pipeline show ?thesis
    by (simp add: emitted_def round_events_def names)
qed

text \<open>
  C2. The run of the handler where the claim fails: the variable \<^verbatim>\<open>GEMINI_API_KEY\<close> is
  not set and the ElevenLabs key is. Line 125 compares the variable with \<^verbatim>\<open>"-"\<close>,
  which an unset variable is not, so the turn is NORMAL and the model is called.
\<close>

theorem missing_gemini_key_calls_model:
  "ELEVEN_LABS_API_KEY no_gemini_key = Some ''el-key''
   \<and> GEMINI_API_KEY no_gemini_key = None
   \<and> keys_missing no_gemini_key = False
   \<and> chat no_gemini_key hello
     = Some (\<lparr>status = 200, payload = JObj [(''messages'', JArr [])]\<rparr>,
             [Generate (JStr ''hello'')])"
  by code_simp

end
